theory Spec2Isabelle
  imports Main "HOL-Library.Word"
begin

section \<open>Time and durations\<close>

text \<open>
  The cache reads the clock through \<open>time.Now()\<close> and compares instants with
  \<open>Time.After\<close>. An instant is modelled as the number of nanoseconds since the
  instant that Go's zero \<open>time.Time\<close> value denotes (January 1, year 1, 00:00:00 UTC),
  on an unbounded time line. Every function that reads the clock in the source takes
  the reading as its first argument. A \<open>time.Duration\<close> is an \<open>int64\<close> count of
  nanoseconds, hence a 64-bit word read as two's complement.
\<close>

type_synonym Time = int
type_synonym Duration = "64 word"

text \<open>\<open>var e time.Time\<close>: the zero value of \<open>time.Time\<close>.\<close>

definition zeroTime :: Time where
  "zeroTime = 0"

text \<open>\<open>t.After(u)\<close> reports whether \<open>t\<close> is strictly after \<open>u\<close>.\<close>

definition After :: "Time \<Rightarrow> Time \<Rightarrow> bool" where
  "After t u = (u < t)"

text \<open>\<open>t.Add(d)\<close>.\<close>

definition Add :: "Time \<Rightarrow> Duration \<Rightarrow> Time" where
  "Add t d = t + sint d"

section \<open>Item\<close>

text \<open>
  \<open>Object\<close> is an \<open>interface{}\<close>: \<open>None\<close> is the nil interface value, \<open>Some x\<close>
  any other payload.
\<close>

record 'v Item =
  Persistent :: bool
  Object :: "'v option"
  Expiration :: Time

definition Expired :: "Time \<Rightarrow> 'v Item \<Rightarrow> bool" where
  "Expired now item =
     (if Persistent item then False
      else After now (Expiration item))"

definition NoExpiration :: Duration where
  "NoExpiration = - 1"

definition DefaultExpiration :: Duration where
  "DefaultExpiration = 0"

section \<open>The concurrent map\<close>

text \<open>
  \<open>sync.Map\<close> belongs to Go's standard library. The cache only ever stores
  \<open>*Item\<close> values under \<open>string\<close> keys, and an \<open>Item\<close> is never written to after
  it has been stored, so the map is a partial function from keys to items. Its four
  operations follow the documentation of \<open>sync.Map\<close>. \<open>Load\<close> returns a value and
  whether the key was found: an \<open>option\<close>. \<open>Range\<close> calls the visitor
  sequentially for each key present in the map and stops when the visitor returns
  false; the order is not specified, so the traversal order \<open>ks\<close> is an argument.
  A key whose entry has been deleted by the time the traversal reaches it is skipped.
  The visitor is a closure: it receives, and returns, the map together with whatever
  other state \<open>'a\<close> it has captured.
\<close>

type_synonym 'v syncMap = "string \<rightharpoonup> 'v Item"

definition Map_Store :: "string \<Rightarrow> 'v Item \<Rightarrow> 'v syncMap \<Rightarrow> 'v syncMap" where
  "Map_Store k item m = m(k \<mapsto> item)"

definition Map_Load :: "string \<Rightarrow> 'v syncMap \<Rightarrow> 'v Item option" where
  "Map_Load k m = m k"

definition Map_Delete :: "string \<Rightarrow> 'v syncMap \<Rightarrow> 'v syncMap" where
  "Map_Delete k m = m(k := None)"

fun Map_Range ::
  "(string \<Rightarrow> 'v Item \<Rightarrow> 'v syncMap \<times> 'a \<Rightarrow> bool \<times> ('v syncMap \<times> 'a))
     \<Rightarrow> string list \<Rightarrow> 'v syncMap \<times> 'a \<Rightarrow> 'v syncMap \<times> 'a" where
  "Map_Range f [] w = w"
| "Map_Range f (k # ks) w =
     (case fst w k of
        None \<Rightarrow> Map_Range f ks w
      | Some item \<Rightarrow>
          (case f k item w of
             (continue, w') \<Rightarrow> if continue then Map_Range f ks w' else w'))"

text \<open>A traversal order of a map lists each of its keys once.\<close>

definition traversal :: "string list \<Rightarrow> 'v syncMap \<Rightarrow> bool" where
  "traversal ks m = (distinct ks \<and> set ks = dom m)"

section \<open>Cache\<close>

text \<open>
  A \<open>chan bool\<close> is either nil (never made) or a channel with an identity.
\<close>

datatype chan = NilChan | MadeChan nat

record 'v Cache =
  defaultExpiration :: Duration
  Map :: "'v syncMap"
  stop :: chan

definition Store :: "Time \<Rightarrow> string \<Rightarrow> 'v option \<Rightarrow> Duration \<Rightarrow> bool \<Rightarrow> 'v Cache \<Rightarrow> 'v Cache" where
  "Store now k x d persitent c =
     (let d = (if d = DefaultExpiration then defaultExpiration c else d);
          e = (if 0 <s d then Add now d else zeroTime)
      in c\<lparr>Map := Map_Store k \<lparr>Persistent = persitent, Object = x, Expiration = e\<rparr> (Map c)\<rparr>)"

definition Load :: "Time \<Rightarrow> string \<Rightarrow> 'v Cache \<Rightarrow> ('v option \<times> bool) \<times> 'v Cache" where
  "Load now k c =
     (case Map_Load k (Map c) of
        None \<Rightarrow> ((None, False), c)
      | Some item \<Rightarrow>
          if \<not> Persistent item then
            if After now (Expiration item)
            then ((None, False), c\<lparr>Map := Map_Delete k (Map c)\<rparr>)
            else ((Object item, True), c)
          else ((Object item, True), c))"

definition Delete :: "string \<Rightarrow> 'v Cache \<Rightarrow> 'v Cache" where
  "Delete k c = c\<lparr>Map := Map_Delete k (Map c)\<rparr>"

text \<open>
  \<open>Range\<close> hands the visitor to the map. The state the visitor threads is the
  cache and the visitor's own captured state.
\<close>

definition Range ::
  "(string \<Rightarrow> 'v Item \<Rightarrow> 'v syncMap \<times> 'a \<Rightarrow> bool \<times> ('v syncMap \<times> 'a))
     \<Rightarrow> string list \<Rightarrow> 'v Cache \<times> 'a \<Rightarrow> 'v Cache \<times> 'a" where
  "Range f ks w =
     (case Map_Range f ks (Map (fst w), snd w) of
        (m', a') \<Rightarrow> ((fst w)\<lparr>Map := m'\<rparr>, a'))"

text \<open>
  \<open>DeleteExpired\<close>: the visitor calls \<open>item.Expired()\<close>, which reads the clock
  anew for each entry; \<open>clock k\<close> is the reading taken when the traversal is at key
  \<open>k\<close>. An expired entry is deleted through \<open>c.Delete\<close>; the visitor always returns
  true.
\<close>

definition DeleteExpired :: "(string \<Rightarrow> Time) \<Rightarrow> string list \<Rightarrow> 'v Cache \<Rightarrow> 'v Cache" where
  "DeleteExpired clock ks c =
     c\<lparr>Map := fst (Map_Range
        (\<lambda>k item w.
           (True, (if Expired (clock k) item then Map (Delete k (c\<lparr>Map := fst w\<rparr>)) else fst w, snd w)))
        ks (Map c, ()))\<rparr>"

definition newCache :: "Duration \<Rightarrow> 'v syncMap \<Rightarrow> 'v Cache" where
  "newCache de m =
     (let de = (if de = 0 then - 1 else de)
      in \<lparr>defaultExpiration = de, Map = m, stop = NilChan\<rparr>)"

text \<open>
  \<open>New\<close> returns the cache and, when it has started the sweeping goroutine
  (\<open>go c.gc(cleanupInterval)\<close>, with \<open>stopGC\<close> set as the finalizer of the cache), the
  interval that the goroutine was started with.
\<close>

definition New :: "Duration \<Rightarrow> Duration \<Rightarrow> 'v Cache \<times> Duration option" where
  "New defaultExpiration' cleanupInterval =
     (let items = Map.empty;
          c = newCache defaultExpiration' items
      in (c, if 0 <s defaultExpiration' then Some cleanupInterval else None))"

section \<open>The sweeping goroutine\<close>

text \<open>
  \<open>time.NewTicker\<close> belongs to Go's standard library; its documentation states that
  the duration must be greater than zero and that \<open>NewTicker\<close> panics otherwise. A
  panic that no goroutine recovers ends the whole program.
\<close>

datatype error = Panic string

definition NewTicker :: "Duration \<Rightarrow> error + Duration" where
  "NewTicker d =
     (if d \<le>s 0 then Inl (Panic ''non-positive interval for NewTicker'') else Inr d)"

text \<open>
  The loop of \<open>gc\<close> waits in a \<open>select\<close> for whichever comes first: a tick of its
  ticker, or a value on \<open>c.stop\<close>. What the environment offers to the loop is a list
  of events: \<open>Tick clock ks\<close>, the ticker has fired (and the sweep that follows reads
  the clock as \<open>clock\<close> and traverses the map in the order \<open>ks\<close>), or \<open>SendOn ch\<close>,
  some goroutine is executing \<open>ch <- true\<close>. By the rules of the language a channel
  operation on a nil channel never proceeds: a \<open>select\<close> case that receives from a nil
  channel is never chosen, and a send on a nil channel blocks forever. The receive case
  of the loop is therefore taken exactly when the offered send is on a made channel
  that is the cache's own \<open>stop\<close> channel. When the events run out, the loop is still
  waiting in its \<open>select\<close>.
\<close>

datatype gc_event = Tick "string \<Rightarrow> Time" "string list" | SendOn chan

datatype 'v task = Running "'v Cache" | Stopped "'v Cache"

fun gc_loop :: "gc_event list \<Rightarrow> 'v Cache \<Rightarrow> 'v task" where
  "gc_loop [] c = Running c"
| "gc_loop (Tick clock ks # evs) c = gc_loop evs (DeleteExpired clock ks c)"
| "gc_loop (SendOn ch # evs) c =
     (if ch \<noteq> NilChan \<and> ch = stop c then Stopped c else gc_loop evs c)"

definition gc :: "Duration \<Rightarrow> gc_event list \<Rightarrow> 'v Cache \<Rightarrow> error + 'v task" where
  "gc ci evs c =
     (case NewTicker ci of
        Inl e \<Rightarrow> Inl e
      | Inr ticker \<Rightarrow> Inr (gc_loop evs c))"

text \<open>\<open>stopGC\<close>: the send \<open>c.stop <- true\<close>, as the event it offers to the loop.\<close>

definition stopGC :: "'v Cache \<Rightarrow> gc_event" where
  "stopGC c = SendOn (stop c)"

section \<open>Example values\<close>

text \<open>
  An instant in the year 2026, one second later, and a cache holding a persistent
  entry whose deadline has passed, an entry that is still fresh, a stale entry and
  an entry stored without a deadline.
\<close>

definition t0 :: Time where
  "t0 = 63900000000000000000"

definition t1 :: Time where
  "t1 = 63900000001000000000"

definition sample :: "nat Cache" where
  "sample =
     \<lparr>defaultExpiration = - 1,
      Map = [''kept'' \<mapsto> \<lparr>Persistent = True, Object = Some 1, Expiration = 5\<rparr>,
             ''fresh'' \<mapsto> \<lparr>Persistent = False, Object = Some 2, Expiration = t1 + 7\<rparr>,
             ''stale'' \<mapsto> \<lparr>Persistent = False, Object = Some 3, Expiration = t0\<rparr>],
      stop = NilChan\<rparr>"

section \<open>Properties of the map operations\<close>

lemma Expired_iff: "Expired now item \<longleftrightarrow> \<not> Persistent item \<and> Expiration item < now"
  by (simp add: Expired_def After_def)



lemma DeleteExpired_fields:
  "defaultExpiration (DeleteExpired clock ks c) = defaultExpiration c"
  "stop (DeleteExpired clock ks c) = stop c"
  by (simp_all add: DeleteExpired_def)

text \<open>
  A visitor that appends each entry it is called with to a log, and whose answer is
  \<open>p k item\<close>, is called with the entries in traversal order up to and including the
  first one it answers false for.
\<close>

lemma Map_Range_record:
  assumes "set ks \<subseteq> dom m"
  shows "Map_Range (\<lambda>k item w. (p k item, (fst w, snd w @ [(k, item)]))) ks (m, log)
     = (m, log @ takeWhile (\<lambda>(k, item). p k item) (map (\<lambda>k. (k, the (m k))) ks)
               @ take 1 (dropWhile (\<lambda>(k, item). p k item) (map (\<lambda>k. (k, the (m k))) ks)))"
  using assms
proof (induction ks arbitrary: log)
  case Nil
  then show ?case by simp
next
  case (Cons k ks)
  then obtain item where item: "m k = Some item"
    by auto
  from Cons.prems have sub: "set ks \<subseteq> dom m"
    by simp
  show ?case
    by (simp add: item Cons.IH [OF sub])
qed

section \<open>Entries stored without a deadline\<close>

text \<open>
  \<open>Store\<close> leaves the deadline of an entry at the zero instant when the resolved
  duration is not positive. Every reading of the clock after the zero instant is
  strictly after that deadline, so \<open>Expired\<close> holds of such an entry unless it is
  persistent, and \<open>Load\<close> deletes it.
\<close>

lemma Expired_without_deadline:
  "zeroTime < now \<Longrightarrow> Expired now \<lparr>Persistent = False, Object = x, Expiration = zeroTime\<rparr>"
  by (simp add: Expired_def After_def)

lemma Load_after_Store_without_deadline:
  assumes "\<not> 0 <s (if d = DefaultExpiration then defaultExpiration c else d)"
    and "zeroTime < now'"
  shows "Load now' k (Store now k x d False c) = ((None, False), Delete k c)"
  using assms
  by (simp add: Load_def Store_def Map_Load_def Map_Store_def Map_Delete_def Delete_def
      After_def Let_def)

text \<open>
  Claim C1. An entry stored with the never-expire duration, or with the use-default
  duration in a cache whose default was normalised to never-expire, and not marked
  persistent, should be returned by every later \<open>Load\<close>. In the code it is not: in a
  cache made by \<open>New(0, 0)\<close>, an entry stored under \<open>"a"\<close> at an instant in 2026 with
  \<open>NoExpiration\<close> (or with \<open>DefaultExpiration\<close>) and loaded one second later is
  reported as not found, and \<open>Load\<close> deletes it, leaving the cache empty again.
\<close>

theorem never_expire_entry_is_lost:
  "Load t1 ''a'' (Store t0 ''a'' (Some (1::nat)) NoExpiration False (fst (New 0 0)))
     = ((None, False), fst (New 0 0))
   \<and> Load t1 ''a'' (Store t0 ''a'' (Some (1::nat)) DefaultExpiration False (fst (New DefaultExpiration 0)))
     = ((None, False), fst (New DefaultExpiration 0))"
  by (simp add: Load_def Store_def Map_Load_def Map_Store_def Map_Delete_def New_def newCache_def
      DefaultExpiration_def NoExpiration_def After_def Let_def word_sless_alt zeroTime_def t1_def)

section \<open>Load\<close>

text \<open>
  Claim C2. \<open>Load(k)\<close> returns \<open>(nil, false)\<close> and leaves the cache alone when \<open>k\<close>
  is absent; it returns the stored value with \<open>true\<close> and leaves the cache alone when the
  entry is persistent or not expired at the instant of the call; and when the entry is
  not persistent and expired at that instant, it returns \<open>(nil, false)\<close> and the cache
  it leaves differs from the one it found exactly in that \<open>k\<close> has been deleted.
\<close>

theorem Load_lazy_expiration:
  "(Map c k = None \<longrightarrow> Load now k c = ((None, False), c))
   \<and> (\<forall>item. Map c k = Some item \<and> (Persistent item \<or> \<not> Expired now item) \<longrightarrow>
         Load now k c = ((Object item, True), c))
   \<and> (\<forall>item. Map c k = Some item \<and> \<not> Persistent item \<and> Expired now item \<longrightarrow>
         Load now k c = ((None, False), c\<lparr>Map := (Map c)(k := None)\<rparr>))"
  by (auto simp: Load_def Map_Load_def Map_Delete_def Expired_def)

theorem Load_lazy_expiration_witness:
  "Map sample ''other'' = None \<and> Load t1 ''other'' sample = ((None, False), sample)
   \<and> Persistent (the (Map sample ''kept'')) \<and> Load t1 ''kept'' sample = ((Some 1, True), sample)
   \<and> \<not> Expired t1 (the (Map sample ''fresh'')) \<and> Load t1 ''fresh'' sample = ((Some 2, True), sample)
   \<and> \<not> Persistent (the (Map sample ''stale'')) \<and> Expired t1 (the (Map sample ''stale''))
   \<and> fst (Load t1 ''stale'' sample) = (None, False)
   \<and> Map (snd (Load t1 ''stale'' sample)) ''stale'' = None"
proof -
  have stale: "Map sample ''stale'' = Some \<lparr>Persistent = False, Object = Some 3, Expiration = t0\<rparr>"
    and kept: "Map sample ''kept'' = Some \<lparr>Persistent = True, Object = Some 1, Expiration = 5\<rparr>"
    and fresh: "Map sample ''fresh'' = Some \<lparr>Persistent = False, Object = Some 2, Expiration = t1 + 7\<rparr>"
    and other: "Map sample ''other'' = None"
    by (simp_all add: sample_def)
  have ex: "Expired t1 \<lparr>Persistent = False, Object = Some (3::nat), Expiration = t0\<rparr>"
    "\<not> Expired t1 \<lparr>Persistent = False, Object = Some (2::nat), Expiration = t1 + 7\<rparr>"
    by (simp_all add: Expired_def After_def t0_def t1_def)
  show ?thesis
    using Load_lazy_expiration [of sample "''other''" t1]
      Load_lazy_expiration [of sample "''kept''" t1]
      Load_lazy_expiration [of sample "''fresh''" t1]
      Load_lazy_expiration [of sample "''stale''" t1]
    by (simp add: stale kept fresh other ex)
qed

section \<open>Expired\<close>

text \<open>
  Claim C3. \<open>Expired()\<close> is false for a persistent entry and otherwise true exactly
  when the clock is strictly after the deadline (lemma \<open>Expired_iff\<close>). The claim goes
  on to say that a non-persistent entry whose deadline is the zero value never expires.
  In the code it does: at an instant in 2026, \<open>Expired()\<close> is true of the non-persistent
  entry with the zero deadline, which is the entry that \<open>Store\<close> with \<open>NoExpiration\<close>
  produces.
\<close>

theorem zero_deadline_is_expired:
  "Expired t0 \<lparr>Persistent = False, Object = Some (1::nat), Expiration = zeroTime\<rparr>
   \<and> the (Map (Store t0 ''a'' (Some (1::nat)) NoExpiration False (fst (New 0 0))) ''a'')
       = \<lparr>Persistent = False, Object = Some 1, Expiration = zeroTime\<rparr>"
  by (simp add: Expired_def After_def Store_def Map_Store_def New_def newCache_def
      DefaultExpiration_def NoExpiration_def Let_def word_sless_alt zeroTime_def t0_def)

section \<open>Construction\<close>

text \<open>
  Claim C4. The constructor normalises its default: when it is given the use-default
  value \<open>0\<close>, the cache's default is the never-expire value \<open>-1\<close>; and whatever it is
  given, the default of the cache it returns is not the use-default value.
\<close>

theorem newCache_normalizes_default:
  "defaultExpiration (newCache DefaultExpiration m) = NoExpiration
   \<and> defaultExpiration (fst (New DefaultExpiration ci)) = NoExpiration
   \<and> defaultExpiration (newCache de m) \<noteq> DefaultExpiration
   \<and> defaultExpiration (fst (New de ci)) \<noteq> DefaultExpiration"
  by (simp add: newCache_def New_def DefaultExpiration_def NoExpiration_def Let_def)

section \<open>DeleteExpired\<close>



section \<open>Properties of the sweeping goroutine\<close>

lemma New_starts_gc:
  "0 <s de \<Longrightarrow> snd (New de ci) = Some ci"
  by (simp add: New_def Let_def)

lemma gc_nonpositive_interval_panics:
  "ci \<le>s 0 \<Longrightarrow> gc ci evs c = Inl (Panic ''non-positive interval for NewTicker'')"
  by (simp add: gc_def NewTicker_def)

text \<open>
  Claim C6. With a positive default and a cleanup interval that is not positive, the
  construction should be accepted and the sweeping goroutine should start and simply
  never sweep, without failing. In the code the goroutine is started, and its first
  statement, \<open>time.NewTicker(ci)\<close>, panics: for \<open>New(5 * time.Minute, 0)\<close> and for
  \<open>New(5 * time.Minute, -1)\<close> the goroutine ends in a panic before it reaches its loop.
\<close>

theorem nonpositive_interval_panics:
  "snd (New 300000000000 0 :: nat Cache \<times> Duration option) = Some 0
   \<and> gc 0 [] (fst (New 300000000000 0 :: nat Cache \<times> Duration option))
       = Inl (Panic ''non-positive interval for NewTicker'')
   \<and> snd (New 300000000000 (- 1) :: nat Cache \<times> Duration option) = Some (- 1)
   \<and> gc (- 1) [] (fst (New 300000000000 (- 1) :: nat Cache \<times> Duration option))
       = Inl (Panic ''non-positive interval for NewTicker'')"
  by (simp add: New_def gc_def NewTicker_def Let_def word_sless_alt word_sle_eq)

text \<open>
  No function of the package makes the \<open>stop\<close> channel: it is nil in every cache that
  \<open>newCache\<close> and \<open>New\<close> return. A loop whose cache has a nil \<open>stop\<close> channel is still
  running after any sequence of events, whereas a loop whose cache has a made channel
  stops at the first send on it.
\<close>

lemma stop_newCache: "stop (newCache de m) = NilChan"
  by (simp add: newCache_def Let_def)

lemma stop_New: "stop (fst (New de ci)) = NilChan"
  by (simp add: New_def Let_def stop_newCache)

lemma gc_loop_nil_keeps_running:
  "stop c = NilChan \<Longrightarrow> \<exists>c'. gc_loop evs c = Running c'"
proof (induction evs arbitrary: c)
  case Nil
  then show ?case by simp
next
  case (Cons ev evs)
  show ?case
  proof (cases ev)
    case (Tick clock ks)
    have "stop (DeleteExpired clock ks c) = NilChan"
      using Cons.prems by (simp add: DeleteExpired_fields)
    from Cons.IH [OF this] show ?thesis
      by (simp add: Tick)
  next
    case (SendOn ch)
    from Cons.IH [OF Cons.prems] show ?thesis
      by (simp add: SendOn Cons.prems)
  qed
qed

lemma gc_loop_nil_never_stops:
  "stop c = NilChan \<Longrightarrow> gc_loop evs c \<noteq> Stopped c'"
  using gc_loop_nil_keeps_running [of c evs] by auto

lemma gc_of_New_never_stops:
  "gc ci evs (fst (New de ci)) \<noteq> Inr (Stopped c')"
  by (simp add: gc_def gc_loop_nil_never_stops stop_New split: sum.split)

lemma gc_loop_made_channel_stops:
  "stop c = MadeChan n \<Longrightarrow> gc_loop (stopGC c # evs) c = Stopped c"
  by (simp add: stopGC_def)

text \<open>
  Claim C7. One cancellation signal sent through the cache's stop channel should make
  the running sweeping goroutine stop its ticker and terminate. In the code it does
  not: the stop channel of the cache returned by \<open>New(time.Second, time.Second)\<close> is
  nil, and after \<open>stopGC\<close> has offered its send the goroutine is still running.
\<close>

theorem stop_signal_never_received:
  "stop (fst (New 1000000000 1000000000 :: nat Cache \<times> Duration option)) = NilChan
   \<and> gc 1000000000 [stopGC (fst (New 1000000000 1000000000))]
        (fst (New 1000000000 1000000000 :: nat Cache \<times> Duration option))
       = Inr (Running (fst (New 1000000000 1000000000)))"
  by (simp add: New_def newCache_def gc_def NewTicker_def stopGC_def Let_def word_sle_eq)

section \<open>Store\<close>

text \<open>
  Claim C8. \<open>Store\<close> overwrites unconditionally: storing twice under the same key
  leaves the cache that the second \<open>Store\<close> alone would have left, and the entry under
  the key holds the value, the persistence flag and the deadline of the second
  \<open>Store\<close>. \<open>Store\<close> returns nothing but the updated cache.
\<close>

theorem Store_overwrites:
  "Store now' k x' d' p' (Store now k x d p c) = Store now' k x' d' p' c
   \<and> Map (Store now' k x' d' p' (Store now k x d p c)) k =
       Some \<lparr>Persistent = p', Object = x',
             Expiration =
               (if 0 <s (if d' = DefaultExpiration then defaultExpiration c else d')
                then now' + sint (if d' = DefaultExpiration then defaultExpiration c else d')
                else zeroTime)\<rparr>"
  by (simp add: Store_def Map_Store_def Add_def Let_def)

text \<open>
  Claim C10. When the duration of a \<open>Store\<close>, after the use-default value has been
  resolved to the cache's default, is not positive, the stored entry's deadline is the
  zero instant; and two such calls with the same key, value and flag leave the same
  cache, whatever their durations and whenever they are made.
\<close>

theorem Store_nonpositive_leaves_zero:
  assumes "\<not> 0 <s (if d = DefaultExpiration then defaultExpiration c else d)"
    and "\<not> 0 <s (if d' = DefaultExpiration then defaultExpiration c else d')"
  shows "Map (Store now k x d p c) k = Some \<lparr>Persistent = p, Object = x, Expiration = zeroTime\<rparr>
       \<and> Store now k x d p c = Store now' k x d' p c"
  using assms by (simp add: Store_def Map_Store_def Let_def)

theorem Store_nonpositive_leaves_zero_witness:
  "\<not> 0 <s (if NoExpiration = DefaultExpiration then defaultExpiration sample else NoExpiration)
   \<and> \<not> 0 <s (if (- 5 :: Duration) = DefaultExpiration then defaultExpiration sample else - 5)
   \<and> Map (Store t0 ''a'' (Some 9) NoExpiration False sample) ''a''
       = Some \<lparr>Persistent = False, Object = Some 9, Expiration = zeroTime\<rparr>
   \<and> Store t0 ''a'' (Some 9) NoExpiration False sample = Store t1 ''a'' (Some 9) (- 5) False sample"
proof -
  have d: "\<not> 0 <s (if NoExpiration = DefaultExpiration then defaultExpiration sample else NoExpiration)"
    by (simp add: NoExpiration_def DefaultExpiration_def word_sless_alt)
  have d': "\<not> 0 <s (if (- 5 :: Duration) = DefaultExpiration then defaultExpiration sample else - 5)"
    by (simp add: DefaultExpiration_def word_sless_alt)
  show ?thesis
    using d d' Store_nonpositive_leaves_zero [OF d d', of t0 "''a''" "Some 9" False t1]
    by blast
qed

section \<open>Range\<close>

text \<open>
  Claim C9. \<open>Range\<close> calls the visitor with the stored entries in traversal order and
  stops after the first call that returns false; it leaves the cache unchanged, so it
  deletes nothing and applies no lazy expiration. When the visitor always returns true,
  it is called once for each key of the map, with the entry stored under that key,
  expired or not. The calls are observed through a visitor that appends the entry it
  is called with to a log and answers \<open>p k item\<close>.
\<close>

theorem Range_visits_each_entry:
  assumes "traversal ks (Map c)"
  shows "fst (Range (\<lambda>k item w. (p k item, (fst w, snd w @ [(k, item)]))) ks (c, [])) = c
     \<and> snd (Range (\<lambda>k item w. (p k item, (fst w, snd w @ [(k, item)]))) ks (c, []))
         = takeWhile (\<lambda>(k, item). p k item) (map (\<lambda>k. (k, the (Map c k))) ks)
           @ take 1 (dropWhile (\<lambda>(k, item). p k item) (map (\<lambda>k. (k, the (Map c k))) ks))
     \<and> ((\<forall>k item. p k item) \<longrightarrow>
          map fst (snd (Range (\<lambda>k item w. (p k item, (fst w, snd w @ [(k, item)]))) ks (c, []))) = ks
          \<and> distinct ks
          \<and> set (snd (Range (\<lambda>k item w. (p k item, (fst w, snd w @ [(k, item)]))) ks (c, [])))
              = {(k, item). Map c k = Some item})"
proof -
  from assms have d: "distinct ks" and ks: "set ks = dom (Map c)"
    by (simp_all add: traversal_def)
  have sub: "set ks \<subseteq> dom (Map c)"
    using ks by simp
  have run: "Range (\<lambda>k item w. (p k item, (fst w, snd w @ [(k, item)]))) ks (c, [])
     = (c, takeWhile (\<lambda>(k, item). p k item) (map (\<lambda>k. (k, the (Map c k))) ks)
           @ take 1 (dropWhile (\<lambda>(k, item). p k item) (map (\<lambda>k. (k, the (Map c k))) ks)))"
    by (simp add: Range_def Map_Range_record [OF sub])
  have all: "takeWhile (\<lambda>(k, item). p k item) (map (\<lambda>k. (k, the (Map c k))) ks)
           @ take 1 (dropWhile (\<lambda>(k, item). p k item) (map (\<lambda>k. (k, the (Map c k))) ks))
      = map (\<lambda>k. (k, the (Map c k))) ks" if "\<forall>k item. p k item"
  proof -
    have "takeWhile (\<lambda>(k, item). p k item) (map (\<lambda>k. (k, the (Map c k))) ks)
        = map (\<lambda>k. (k, the (Map c k))) ks"
      using that by (simp add: takeWhile_eq_all_conv)
    moreover have "dropWhile (\<lambda>(k, item). p k item) (map (\<lambda>k. (k, the (Map c k))) ks) = []"
      using that by (simp add: dropWhile_eq_Nil_conv)
    ultimately show ?thesis
      by (simp only: take.simps append_Nil2)
  qed
  have graph: "set (map (\<lambda>k. (k, the (Map c k))) ks) = {(k, item). Map c k = Some item}"
    using ks by (auto simp: dom_def)
  have keys: "map fst (map (\<lambda>k. (k, the (Map c k))) ks) = ks"
    by (simp add: comp_def)
  show ?thesis
    unfolding run fst_conv snd_conv
  proof (intro conjI impI)
    assume p: "\<forall>k item. p k item"
    show "map fst (takeWhile (\<lambda>(k, item). p k item) (map (\<lambda>k. (k, the (Map c k))) ks)
           @ take 1 (dropWhile (\<lambda>(k, item). p k item) (map (\<lambda>k. (k, the (Map c k))) ks))) = ks"
      by (simp only: all [OF p] keys)
    show "set (takeWhile (\<lambda>(k, item). p k item) (map (\<lambda>k. (k, the (Map c k))) ks)
           @ take 1 (dropWhile (\<lambda>(k, item). p k item) (map (\<lambda>k. (k, the (Map c k))) ks)))
         = {(k, item). Map c k = Some item}"
      by (simp only: all [OF p] graph)
  qed (rule refl d)+
qed

theorem Range_visits_each_entry_witness:
  "traversal [''stale'', ''kept'', ''fresh''] (Map sample)
   \<and> Expired t1 (the (Map sample ''stale''))
   \<and> Range (\<lambda>k item w. (True, (fst w, snd w @ [(k, item)]))) [''stale'', ''kept'', ''fresh''] (sample, [])
       = (sample,
          [(''stale'', \<lparr>Persistent = False, Object = Some 3, Expiration = t0\<rparr>),
           (''kept'', \<lparr>Persistent = True, Object = Some 1, Expiration = 5\<rparr>),
           (''fresh'', \<lparr>Persistent = False, Object = Some 2, Expiration = t1 + 7\<rparr>)])
   \<and> Range (\<lambda>k item w. (k \<noteq> ''kept'', (fst w, snd w @ [(k, item)]))) [''stale'', ''kept'', ''fresh''] (sample, [])
       = (sample,
          [(''stale'', \<lparr>Persistent = False, Object = Some 3, Expiration = t0\<rparr>),
           (''kept'', \<lparr>Persistent = True, Object = Some 1, Expiration = 5\<rparr>)])"
proof -
  have tr: "traversal [''stale'', ''kept'', ''fresh''] (Map sample)"
    by (auto simp: traversal_def sample_def)
  have items: "the (Map sample ''stale'') = \<lparr>Persistent = False, Object = Some 3, Expiration = t0\<rparr>"
    "the (Map sample ''kept'') = \<lparr>Persistent = True, Object = Some 1, Expiration = 5\<rparr>"
    "the (Map sample ''fresh'') = \<lparr>Persistent = False, Object = Some 2, Expiration = t1 + 7\<rparr>"
    by (simp_all add: sample_def)
  have ex: "Expired t1 (the (Map sample ''stale''))"
    by (simp add: items Expired_def After_def t0_def t1_def)
  show ?thesis
    using tr ex
      Range_visits_each_entry [OF tr, of "\<lambda>_ _. True"]
      Range_visits_each_entry [OF tr, of "\<lambda>k _. k \<noteq> ''kept''"]
    by (simp add: prod_eq_iff items)
qed

end
